theory Spec2Isabelle
  imports Complex_Main "HOL-Library.Sublist"
begin

section \<open>Sentinel-2 NDVI tile server: the cloud function \<open>get_tiles\<close>\<close>

text \<open>
  The source is one Python module, \<open>cloud-functions/ee-tiles/main.py\<close>. It holds a
  process-wide flag \<open>_ee_initialized\<close>, the lazy initialiser \<open>_ensure_ee\<close>, the mapped
  function \<open>mask_s2_clouds\<close> and the HTTP handler \<open>get_tiles\<close>.

  The Earth Engine client builds descriptions of images and collections; the service
  computes them. The description objects are datatypes here, one constructor for each
  client operation the module uses. Every library call the module makes is an effect:
  it is appended to a log of calls, and the service decides whether it raises.
\<close>

subsection \<open>Client-side objects\<close>

text \<open>\<open>ee.Geometry.Rectangle([west, south, east, north])\<close>.\<close>

datatype ee_geometry = Geometry_Rectangle "rat list"

text \<open>\<open>ee.Filter.lt(name, value)\<close>.\<close>

datatype ee_filter = Filter_lt string rat

text \<open>
  Images and collections. \<open>MapArg\<close> is the image that a function passed to
  \<open>ImageCollection.map\<close> receives: the client calls the function once on this
  placeholder and ships the expression it returns, so \<open>map_ee c f\<close> below stores
  \<open>f MapArg\<close>. A number used as an image (\<open>scl.neq(3)\<close>) is the constant image.
\<close>

datatype ee_image =
    MapArg
  | Image_constant rat
  | select ee_image string
  | neq ee_image ee_image
  | And_ee ee_image ee_image
  | updateMask ee_image ee_image
  | median ee_collection
  | normalizedDifference ee_image "string list"
  | rename ee_image string
and ee_collection =
    ImageCollection string
  | filterBounds ee_collection ee_geometry
  | filterDate ee_collection string string
  | filter_ee ee_collection ee_filter
  | Collection_map ee_collection ee_image

definition map_ee :: "ee_collection \<Rightarrow> (ee_image \<Rightarrow> ee_image) \<Rightarrow> ee_collection" where
  "map_ee c f = Collection_map c (f MapArg)"

subsection \<open>Constants of the module\<close>

record vis_params =
  vis_min :: rat
  vis_max :: rat
  palette :: "string list"

definition NDVI_VIS :: vis_params where
  "NDVI_VIS = \<lparr> vis_min = - (2 / 10), vis_max = 8 / 10,
     palette = [''#d73027'', ''#fc8d59'', ''#fee08b'', ''#d9ef8b'',
                ''#66bd63'', ''#1a9850'', ''#006837''] \<rparr>"

definition PROJECT :: string where
  "PROJECT = ''salish-sea-property-mapper''"

subsection \<open>The cloud mask\<close>

text \<open>
  \<^verbatim>\<open>
  def mask_s2_clouds(image):
      scl = image.select('SCL')
      mask = scl.neq(3).And(scl.neq(8)).And(scl.neq(9)).And(scl.neq(10))
      return image.updateMask(mask)
  \<close>
\<close>

definition mask_s2_clouds :: "ee_image \<Rightarrow> ee_image" where
  "mask_s2_clouds image' =
     (let scl = select image' ''SCL'';
          mask = And_ee (And_ee (And_ee (neq scl (Image_constant 3)) (neq scl (Image_constant 8)))
                                (neq scl (Image_constant 9)))
                        (neq scl (Image_constant 10))
      in updateMask image' mask)"

subsection \<open>Library calls as effects\<close>

text \<open>What \<open>google.auth.default\<close> hands back; the handle is opaque to the module.\<close>

datatype credentials = Credentials nat

text \<open>
  One constructor for each library operation evaluated inside the handler's \<open>try\<close>
  block and inside \<open>_ensure_ee\<close>, with the arguments it is called on. The last two
  are the subscript \<open>map_id['tile_fetcher']\<close> and the attribute read \<open>.url_format\<close>.
\<close>

datatype ee_call =
    google_auth_default "string list"
  | ee_Initialize credentials string
  | ee_Geometry_Rectangle "rat list"
  | ee_ImageCollection string
  | call_filterBounds ee_collection ee_geometry
  | call_filterDate ee_collection string string
  | ee_Filter_lt string rat
  | call_filter ee_collection ee_filter
  | call_map ee_collection ee_image
  | call_median ee_collection
  | call_normalizedDifference ee_image "string list"
  | call_rename ee_image string
  | call_getMapId ee_image vis_params
  | getitem_tile_fetcher
  | getattr_url_format

text \<open>
  What a call can raise, with \<open>str(e)\<close>: an instance of \<open>Exception\<close>, which
  \<open>except Exception as e\<close> binds, or an object that derives from \<open>BaseException\<close> only
  (\<open>KeyboardInterrupt\<close>, \<open>SystemExit\<close>, \<open>GeneratorExit\<close>), which that clause lets pass.
\<close>

datatype py_exception = Exception string | BaseException string

fun str :: "py_exception \<Rightarrow> string" where
  "str (Exception m) = m"
| "str (BaseException m) = m"

text \<open>\<open>isinstance(e, Exception)\<close>.\<close>

fun is_Exception :: "py_exception \<Rightarrow> bool" where
  "is_Exception (Exception m) = True"
| "is_Exception (BaseException m) = False"

text \<open>
  The outside world. \<open>fails\<close> says whether a call raises, given every call made
  before it in this process, and what it raises; so the same call may fail once and
  succeed later. \<open>resolved\<close> is the credentials object credential resolution
  returns and \<open>tile_url\<close> the URL template the registered map carries.
\<close>

record service =
  fails :: "ee_call list \<Rightarrow> ee_call \<Rightarrow> py_exception option"
  resolved :: "ee_call list \<Rightarrow> credentials"
  tile_url :: "ee_call list \<Rightarrow> string"

text \<open>
  The process: the module's global \<open>_ee_initialized\<close> and the log of library calls made
  so far, oldest first.
\<close>

record process =
  ee_initialized :: bool
  calls :: "ee_call list"

type_synonym 'a eff = "process \<Rightarrow> (py_exception + 'a) \<times> process"

definition ret :: "'a \<Rightarrow> 'a eff" where
  "ret v = (\<lambda>s. (Inr v, s))"

definition bind :: "'a eff \<Rightarrow> ('a \<Rightarrow> 'b eff) \<Rightarrow> 'b eff" where
  "bind m k = (\<lambda>s. case m s of (Inl e, s') \<Rightarrow> (Inl e, s') | (Inr v, s') \<Rightarrow> k v s')"

text \<open>
  \<open>try: body except Exception as e: handler(e)\<close>. What is raised and is not an instance
  of \<open>Exception\<close> leaves the statement as it came.
\<close>

definition try_except :: "'a eff \<Rightarrow> (py_exception \<Rightarrow> 'a eff) \<Rightarrow> 'a eff" where
  "try_except body handler =
     (\<lambda>s. case body s of
            (Inl e, s') \<Rightarrow> if is_Exception e then handler e s' else (Inl e, s')
          | (Inr v, s') \<Rightarrow> (Inr v, s'))"

text \<open>A library call: logged, then it raises or returns as the service decides.\<close>

definition call :: "service \<Rightarrow> ee_call \<Rightarrow> unit eff" where
  "call svc c =
     (\<lambda>s. let s' = s\<lparr>calls := calls s @ [c]\<rparr>
          in case fails svc (calls s) c of
               Some e \<Rightarrow> (Inl e, s')
             | None \<Rightarrow> (Inr (), s'))"

text \<open>A call that returns the client object \<open>v\<close> when it does not raise.\<close>

definition call_ret :: "service \<Rightarrow> ee_call \<Rightarrow> 'a \<Rightarrow> 'a eff" where
  "call_ret svc c v = bind (call svc c) (\<lambda>_. ret v)"

subsection \<open>The session initialiser\<close>

text \<open>
  \<^verbatim>\<open>
  def _ensure_ee():
      global _ee_initialized
      if _ee_initialized:
          return
      credentials, _ = google.auth.default(
          scopes=['https://www.googleapis.com/auth/earthengine'])
      ee.Initialize(credentials, project=PROJECT)
      _ee_initialized = True
  \<close>
\<close>

definition scopes :: "string list" where
  "scopes = [''https://www.googleapis.com/auth/earthengine'']"

definition ensure_ee :: "service \<Rightarrow> unit eff" where
  "ensure_ee svc =
     (\<lambda>s. if ee_initialized s then (Inr (), s)
          else bind (call_ret svc (google_auth_default scopes) (resolved svc (calls s)))
                 (\<lambda>credentials.
               bind (call svc (ee_Initialize credentials PROJECT))
                 (\<lambda>_. (\<lambda>s1. (Inr (), s1\<lparr>ee_initialized := True\<rparr>)))) s)"

subsection \<open>The handler\<close>

text \<open>The request: its method and its query string, in the order received.\<close>

record request =
  "method" :: string
  args :: "(string \<times> string) list"

text \<open>\<open>request.args.get(key)\<close>: the first value of the key, or \<open>None\<close>.\<close>

definition args_get :: "request \<Rightarrow> string \<Rightarrow> string option" where
  "args_get r k = map_of (args r) k"

text \<open>Python's \<open>not x\<close> on a value that is a string or \<open>None\<close>.\<close>

fun py_not :: "string option \<Rightarrow> bool" where
  "py_not None = True"
| "py_not (Some v) = (v = [])"

text \<open>
  The response is the tuple \<open>(body, status, headers)\<close>; the body is the empty string of
  the preflight reply or what \<open>jsonify\<close> makes of a dictionary from strings to strings.
\<close>

datatype body = Text string | Json "(string \<times> string) list"

type_synonym response = "body \<times> nat \<times> (string \<times> string) list"

definition region_coords :: "rat list" where
  "region_coords = [- (12322 / 100), 4840 / 100, - (12275 / 100), 4877 / 100]"

text \<open>
  The body of the \<open>try\<close> block, lines 77 to 97, one \<open>bind\<close> for each evaluation in
  Python's order: the receiver of a method call before its arguments.
\<close>

definition processing :: "service \<Rightarrow> (string \<times> string) list \<Rightarrow> string \<Rightarrow> string \<Rightarrow> response eff" where
  "processing svc cors_headers start end' =
     bind (ensure_ee svc) (\<lambda>_.
     bind (call_ret svc (ee_Geometry_Rectangle region_coords)
             (Geometry_Rectangle region_coords)) (\<lambda>region.
     bind (call_ret svc (ee_ImageCollection ''COPERNICUS/S2_SR_HARMONIZED'')
             (ImageCollection ''COPERNICUS/S2_SR_HARMONIZED'')) (\<lambda>c0.
     bind (call_ret svc (call_filterBounds c0 region) (filterBounds c0 region)) (\<lambda>c1.
     bind (call_ret svc (call_filterDate c1 start end') (filterDate c1 start end')) (\<lambda>c2.
     bind (call_ret svc (ee_Filter_lt ''CLOUDY_PIXEL_PERCENTAGE'' 30)
             (Filter_lt ''CLOUDY_PIXEL_PERCENTAGE'' 30)) (\<lambda>f.
     bind (call_ret svc (call_filter c2 f) (filter_ee c2 f)) (\<lambda>c3.
     bind (call_ret svc (call_map c3 (mask_s2_clouds MapArg)) (map_ee c3 mask_s2_clouds)) (\<lambda>c4.
     bind (call_ret svc (call_median c4) (median c4)) (\<lambda>s2.
     bind (call_ret svc (call_normalizedDifference s2 [''B8'', ''B4''])
             (normalizedDifference s2 [''B8'', ''B4''])) (\<lambda>nd.
     bind (call_ret svc (call_rename nd ''NDVI'') (rename nd ''NDVI'')) (\<lambda>ndvi.
     bind (call svc (call_getMapId ndvi NDVI_VIS)) (\<lambda>_.
     bind (call svc getitem_tile_fetcher) (\<lambda>_.
     bind (\<lambda>s. call_ret svc getattr_url_format (tile_url svc (calls s)) s) (\<lambda>tile_url.
     ret (Json [(''tileUrl'', tile_url)], 200, cors_headers)))))))))))))))"

definition preflight_headers :: "(string \<times> string) list" where
  "preflight_headers =
     [(''Access-Control-Allow-Origin'', ''*''),
      (''Access-Control-Allow-Methods'', ''GET''),
      (''Access-Control-Allow-Headers'', ''Content-Type''),
      (''Access-Control-Max-Age'', ''3600'')]"

definition get_tiles :: "service \<Rightarrow> request \<Rightarrow> response eff" where
  "get_tiles svc request =
     (if method request = ''OPTIONS'' then ret (Text [], 204, preflight_headers)
      else
        let cors_headers = [(''Access-Control-Allow-Origin'', ''*'')];
            start = args_get request ''start'';
            end' = args_get request ''end''
        in if py_not start \<or> py_not end'
           then ret (Json [(''error'', ''Missing start/end parameters'')], 400, cors_headers)
           else try_except (processing svc cors_headers (the start) (the end'))
                  (\<lambda>e. ret (Json [(''error'', str e)], 500, cors_headers)))"

subsection \<open>The calls of one request, as a list\<close>

text \<open>
  A straight line of library calls run against the service after the calls \<open>hist\<close>: what
  the first call that raises has raised, if one does, and the log when the line stops.
\<close>

fun run_calls :: "service \<Rightarrow> ee_call list \<Rightarrow> ee_call list \<Rightarrow> py_exception option \<times> ee_call list" where
  "run_calls svc hist [] = (None, hist)"
| "run_calls svc hist (c # cs) =
     (case fails svc hist c of
        Some e \<Rightarrow> (Some e, hist @ [c])
      | None \<Rightarrow> run_calls svc (hist @ [c]) cs)"

definition init_calls :: "service \<Rightarrow> process \<Rightarrow> ee_call list" where
  "init_calls svc s =
     (if ee_initialized s then []
      else [google_auth_default scopes, ee_Initialize (resolved svc (calls s)) PROJECT])"

definition S2 :: ee_collection where
  "S2 = ImageCollection ''COPERNICUS/S2_SR_HARMONIZED''"

definition region :: ee_geometry where
  "region = Geometry_Rectangle region_coords"

definition cloud_filter :: ee_filter where
  "cloud_filter = Filter_lt ''CLOUDY_PIXEL_PERCENTAGE'' 30"

definition filtered :: "string \<Rightarrow> string \<Rightarrow> ee_collection" where
  "filtered start end' = filter_ee (filterDate (filterBounds S2 region) start end') cloud_filter"

definition composite :: "string \<Rightarrow> string \<Rightarrow> ee_image" where
  "composite start end' = median (Collection_map (filtered start end') (mask_s2_clouds MapArg))"

definition ndvi_of :: "ee_image \<Rightarrow> ee_image" where
  "ndvi_of s2 = rename (normalizedDifference s2 [''B8'', ''B4'']) ''NDVI''"

text \<open>The five collection stages, each called on what the stage before it returned.\<close>

definition stage_calls :: "string \<Rightarrow> string \<Rightarrow> ee_call list" where
  "stage_calls start end' =
     [call_filterBounds S2 region,
      call_filterDate (filterBounds S2 region) start end',
      call_filter (filterDate (filterBounds S2 region) start end') cloud_filter,
      call_map (filtered start end') (mask_s2_clouds MapArg),
      call_median (Collection_map (filtered start end') (mask_s2_clouds MapArg))]"

text \<open>Every call of the \<open>try\<close> block after \<open>_ensure_ee()\<close>, in the order of evaluation.\<close>

definition pipeline_calls :: "string \<Rightarrow> string \<Rightarrow> ee_call list" where
  "pipeline_calls start end' =
     [ee_Geometry_Rectangle region_coords,
      ee_ImageCollection ''COPERNICUS/S2_SR_HARMONIZED'',
      call_filterBounds S2 region,
      call_filterDate (filterBounds S2 region) start end',
      ee_Filter_lt ''CLOUDY_PIXEL_PERCENTAGE'' 30,
      call_filter (filterDate (filterBounds S2 region) start end') cloud_filter,
      call_map (filtered start end') (mask_s2_clouds MapArg),
      call_median (Collection_map (filtered start end') (mask_s2_clouds MapArg)),
      call_normalizedDifference (composite start end') [''B8'', ''B4''],
      call_rename (normalizedDifference (composite start end') [''B8'', ''B4'']) ''NDVI'',
      call_getMapId (ndvi_of (composite start end')) NDVI_VIS,
      getitem_tile_fetcher,
      getattr_url_format]"

definition chain :: "service \<Rightarrow> process \<Rightarrow> string \<Rightarrow> string \<Rightarrow> ee_call list" where
  "chain svc s start end' = init_calls svc s @ pipeline_calls start end'"

text \<open>Which calls are collection stages: a filter, the map or the reduction.\<close>

fun is_stage :: "ee_call \<Rightarrow> bool" where
  "is_stage (call_filterBounds c g) = True"
| "is_stage (call_filterDate c a b) = True"
| "is_stage (call_filter c f) = True"
| "is_stage (call_map c f) = True"
| "is_stage (call_median c) = True"
| "is_stage c = False"

definition cors :: "(string \<times> string) list" where
  "cors = [(''Access-Control-Allow-Origin'', ''*'')]"

text \<open>The reply to a request without usable \<open>start\<close> and \<open>end\<close> (line 74).\<close>

definition missing_response :: response where
  "missing_response =
     (Json [(''error'', ''Missing start/end parameters'')], 400,
      [(''Access-Control-Allow-Origin'', ''*'')])"

text \<open>
  How the \<open>try\<close> block ends once the outcome of its calls is known: with what the
  first failing call raised, or with the 200 reply and the URL template read at the last
  call.
\<close>

definition finish :: "service \<Rightarrow> (string \<times> string) list \<Rightarrow> py_exception option \<times> ee_call list \<Rightarrow> process \<Rightarrow> (py_exception + response) \<times> process" where
  "finish svc h r s =
     (case r of
        (Some e, hist) \<Rightarrow> (Inl e, s\<lparr>calls := hist\<rparr>)
      | (None, hist) \<Rightarrow>
          (Inr (Json [(''tileUrl'', tile_url svc (butlast hist))], 200, h), s\<lparr>calls := hist\<rparr>))"

text \<open>
  What the handler makes of that outcome: the 500 reply for an instance of \<open>Exception\<close>,
  the raised object itself when it is none, the 200 reply when nothing was raised.
\<close>

definition reply :: "service \<Rightarrow> py_exception option \<times> ee_call list \<Rightarrow> py_exception + response" where
  "reply svc r =
     (case r of
        (Some e, hist) \<Rightarrow>
          if is_Exception e then Inr (Json [(''error'', str e)], 500, cors) else Inl e
      | (None, hist) \<Rightarrow> Inr (Json [(''tileUrl'', tile_url svc (butlast hist))], 200, cors))"

subsection \<open>Example requests, services and processes\<close>

definition cold :: process where
  "cold = \<lparr> ee_initialized = False, calls = [] \<rparr>"

text \<open>A service on which every call succeeds.\<close>

definition healthy :: service where
  "healthy = \<lparr> fails = (\<lambda>_ _. None), resolved = (\<lambda>_. Credentials 0),
       tile_url = (\<lambda>_. ''https://earthengine.googleapis.com/v1/maps/m/tiles/{z}/{x}/{y}'') \<rparr>"

definition summer_request :: request where
  "summer_request =
     \<lparr> method = ''GET'', args = [(''start'', ''2024-06-01''), (''end'', ''2024-08-31'')] \<rparr>"

definition no_end_request :: request where
  "no_end_request = \<lparr> method = ''GET'', args = [(''start'', ''2024-06-01'')] \<rparr>"

definition empty_start_request :: request where
  "empty_start_request =
     \<lparr> method = ''GET'', args = [(''start'', []), (''end'', ''2024-08-31'')] \<rparr>"

definition preflight_request :: request where
  "preflight_request = \<lparr> method = ''OPTIONS'', args = [] \<rparr>"

text \<open>A service whose median reduction raises.\<close>

definition quota_service :: service where
  "quota_service = \<lparr> fails = (\<lambda>_ c. case c of call_median _ \<Rightarrow> Some (Exception ''Quota exceeded'') | _ \<Rightarrow> None),
       resolved = (\<lambda>_. Credentials 0), tile_url = (\<lambda>_. []) \<rparr>"

text \<open>
  A service whose median reduction is interrupted: what is raised derives from
  \<open>BaseException\<close> only, as \<open>KeyboardInterrupt()\<close> does, whose \<open>str\<close> is empty.
\<close>

definition interrupted_service :: service where
  "interrupted_service = \<lparr> fails = (\<lambda>_ c. case c of call_median _ \<Rightarrow> Some (BaseException []) | _ \<Rightarrow> None),
       resolved = (\<lambda>_. Credentials 0), tile_url = (\<lambda>_. []) \<rparr>"

subsection \<open>Sequences of calls to the initialiser\<close>

text \<open>
  The process after \<open>n\<close> calls of \<open>_ensure_ee\<close> one after the other. A call that raises is
  followed by the next all the same: each request's handler catches the exception.
\<close>

fun ensure_ee_times :: "service \<Rightarrow> nat \<Rightarrow> process \<Rightarrow> process" where
  "ensure_ee_times svc 0 s = s"
| "ensure_ee_times svc (Suc n) s = ensure_ee_times svc n (snd (ensure_ee svc s))"

text \<open>
  How often, among the calls \<open>cs\<close> made after \<open>hist\<close>, the session was set up: the number
  of \<open>ee.Initialize\<close> calls that returned.
\<close>

fun is_Initialize :: "ee_call \<Rightarrow> bool" where
  "is_Initialize (ee_Initialize c p) = True"
| "is_Initialize c = False"

fun setups :: "service \<Rightarrow> ee_call list \<Rightarrow> ee_call list \<Rightarrow> nat" where
  "setups svc hist [] = 0"
| "setups svc hist (c # cs) =
     (if is_Initialize c \<and> fails svc hist c = None then 1 else 0) + setups svc (hist @ [c]) cs"

text \<open>
  How often, among the same calls, credentials were resolved: the number of
  \<open>google.auth.default\<close> calls that returned.
\<close>

fun is_auth_default :: "ee_call \<Rightarrow> bool" where
  "is_auth_default (google_auth_default sc) = True"
| "is_auth_default c = False"

fun resolutions :: "service \<Rightarrow> ee_call list \<Rightarrow> ee_call list \<Rightarrow> nat" where
  "resolutions svc hist [] = 0"
| "resolutions svc hist (c # cs) =
     (if is_auth_default c \<and> fails svc hist c = None then 1 else 0)
       + resolutions svc (hist @ [c]) cs"

text \<open>A service whose first session initialisation raises and whose later ones return.\<close>

definition flaky_init :: service where
  "flaky_init = \<lparr> fails = (\<lambda>hist c. case c of
                     ee_Initialize _ _ \<Rightarrow> if length hist < 2 then Some (Exception ''Earth Engine unavailable'') else None
                   | _ \<Rightarrow> None),
       resolved = (\<lambda>hist. Credentials (length hist)), tile_url = (\<lambda>_. []) \<rparr>"

subsection \<open>What the service computes\<close>

text \<open>
  The module only describes images; the pixels are computed by Earth Engine. The
  operations the module names are given here the meaning Earth Engine documents for them.
  An image is its named bands in order; a band gives each pixel a number, or nothing where
  the pixel is masked (no data).
\<close>

type_synonym pixel = "int \<times> int"
type_synonym band = "pixel \<Rightarrow> rat option"
type_synonym image_data = "(string \<times> band) list"

text \<open>Why the service refuses a computation.\<close>

datatype ee_error = NoSuchBand string | BandCountMismatch | BadArguments

text \<open>
  A pixel of a binary operation has data only where both operands have: \<open>neq\<close> is 1 where
  the values differ and 0 where they agree, \<open>And\<close> is 1 where both are non-zero and 0
  otherwise. \<open>updateMask\<close> keeps a pixel that has data where the mask is non-zero and
  removes it where the mask is zero or has no data itself.
\<close>

definition pixelwise :: "(rat \<Rightarrow> rat \<Rightarrow> rat option) \<Rightarrow> band \<Rightarrow> band \<Rightarrow> band" where
  "pixelwise f a b =
     (\<lambda>p. case a p of None \<Rightarrow> None
                    | Some x \<Rightarrow> (case b p of None \<Rightarrow> None | Some y \<Rightarrow> f x y))"

definition neq_px :: "rat \<Rightarrow> rat \<Rightarrow> rat option" where
  "neq_px x y = Some (if x \<noteq> y then 1 else 0)"

definition and_px :: "rat \<Rightarrow> rat \<Rightarrow> rat option" where
  "and_px x y = Some (if x \<noteq> 0 \<and> y \<noteq> 0 then 1 else 0)"

definition mask_px :: "rat \<Rightarrow> rat \<Rightarrow> rat option" where
  "mask_px v k = (if k = 0 then None else Some v)"

text \<open>
  The normalised difference of two values is \<open>(x - y) / (x + y)\<close>; a negative input
  masks the pixel. Where the sum is zero the quotient is undefined; the pixel is left
  without data here, and no property below speaks of such a pixel.
\<close>

definition nd_px :: "rat \<Rightarrow> rat \<Rightarrow> rat option" where
  "nd_px x y = (if x < 0 \<or> y < 0 \<or> x + y = 0 then None else Some ((x - y) / (x + y)))"

text \<open>
  Bands are paired in their order when both images have as many; an image of one band is
  used against every band of the other. The result is named after the first image, or the
  longer one.
\<close>

definition matched :: "(band \<Rightarrow> band \<Rightarrow> band) \<Rightarrow> image_data \<Rightarrow> image_data \<Rightarrow> ee_error + image_data" where
  "matched f a b =
     (if length a = length b then Inr (map (\<lambda>((n, x), (_, y)). (n, f x y)) (zip a b))
      else if length b = 1 then Inr (map (\<lambda>(n, x). (n, f x (snd (hd b)))) a)
      else if length a = 1 then Inr (map (\<lambda>(n, y). (n, f (snd (hd a)) y)) b)
      else Inl BandCountMismatch)"

text \<open>A mask of one band applies to every band; otherwise it needs a band for each.\<close>

definition masked_by :: "image_data \<Rightarrow> image_data \<Rightarrow> ee_error + image_data" where
  "masked_by a m =
     (if length m = 1 then Inr (map (\<lambda>(n, x). (n, pixelwise mask_px x (snd (hd m)))) a)
      else if length m = length a
        then Inr (map (\<lambda>((n, x), (_, k)). (n, pixelwise mask_px x k)) (zip a m))
      else Inl BandCountMismatch)"

text \<open>\<open>select\<close> keeps the bands of that name and fails when there is none.\<close>

definition selected :: "image_data \<Rightarrow> string \<Rightarrow> ee_error + image_data" where
  "selected a n =
     (case filter (\<lambda>(k, _). k = n) a of [] \<Rightarrow> Inl (NoSuchBand n) | bs \<Rightarrow> Inr bs)"

text \<open>
  \<open>normalizedDifference([a, b])\<close> reads the bands \<open>a\<close> and \<open>b\<close> in that order and returns
  one band, named \<open>nd\<close>.
\<close>

definition difference_of :: "image_data \<Rightarrow> string list \<Rightarrow> ee_error + image_data" where
  "difference_of a names =
     (case names of
        [n1, n2] \<Rightarrow>
          (case map_of a n1 of
             None \<Rightarrow> Inl (NoSuchBand n1)
           | Some b1 \<Rightarrow>
               (case map_of a n2 of
                  None \<Rightarrow> Inl (NoSuchBand n2)
                | Some b2 \<Rightarrow> Inr [(''nd'', pixelwise nd_px b1 b2)]))
      | _ \<Rightarrow> Inl BadArguments)"

text \<open>\<open>rename\<close> with one name needs an image of one band.\<close>

definition renamed :: "image_data \<Rightarrow> string \<Rightarrow> ee_error + image_data" where
  "renamed a n = (case a of [(_, b)] \<Rightarrow> Inr [(n, b)] | _ \<Rightarrow> Inl BandCountMismatch)"

text \<open>Sequencing of computations the service may refuse: the first refusal is the result.\<close>

fun and_then :: "ee_error + 'a \<Rightarrow> ('a \<Rightarrow> ee_error + 'b) \<Rightarrow> ee_error + 'b" where
  "and_then (Inl e) f = Inl e"
| "and_then (Inr x) f = f x"

text \<open>
  The value of an image description. \<open>arg\<close> is the image a mapped function is applied
  to; \<open>red\<close> is what the service makes of a collection reduced by \<open>median\<close>, which
  depends on its catalogue.
\<close>

fun ee_eval :: "image_data \<Rightarrow> (ee_collection \<Rightarrow> ee_error + image_data) \<Rightarrow> ee_image \<Rightarrow> ee_error + image_data" where
  "ee_eval arg red MapArg = Inr arg"
| "ee_eval arg red (Image_constant c) = Inr [(''constant'', \<lambda>p. Some c)]"
| "ee_eval arg red (select e n) = and_then (ee_eval arg red e) (\<lambda>a. selected a n)"
| "ee_eval arg red (neq e1 e2) =
     and_then (ee_eval arg red e1) (\<lambda>a.
     and_then (ee_eval arg red e2) (\<lambda>b. matched (pixelwise neq_px) a b))"
| "ee_eval arg red (And_ee e1 e2) =
     and_then (ee_eval arg red e1) (\<lambda>a.
     and_then (ee_eval arg red e2) (\<lambda>b. matched (pixelwise and_px) a b))"
| "ee_eval arg red (updateMask e m) =
     and_then (ee_eval arg red e) (\<lambda>a.
     and_then (ee_eval arg red m) (\<lambda>k. masked_by a k))"
| "ee_eval arg red (median c) = red c"
| "ee_eval arg red (normalizedDifference e names) =
     and_then (ee_eval arg red e) (\<lambda>a. difference_of a names)"
| "ee_eval arg red (rename e n) = and_then (ee_eval arg red e) (\<lambda>a. renamed a n)"

text \<open>
  The mask that keeps a pixel unless its scene classification is cloud shadow (3), cloud
  of medium (8) or high (9) probability, or thin cirrus (10).
\<close>

definition cloud_free :: "band \<Rightarrow> band" where
  "cloud_free scl =
     (\<lambda>p. case scl p of None \<Rightarrow> None
                      | Some v \<Rightarrow> Some (if v = 3 \<or> v = 8 \<or> v = 9 \<or> v = 10 then 0 else 1))"

text \<open>
  An image of two pixels with data: vegetation at \<open>(0, 0)\<close>, cloud of high probability
  at \<open>(0, 1)\<close>.
\<close>

definition scene :: image_data where
  "scene =
     [(''B4'', \<lambda>p. if p = (0, 0) then Some 400 else if p = (0, 1) then Some 2500 else None),
      (''B8'', \<lambda>p. if p = (0, 0) then Some 3600 else if p = (0, 1) then Some 2600 else None),
      (''SCL'', \<lambda>p. if p = (0, 0) then Some 4 else if p = (0, 1) then Some 9 else None)]"

definition no_catalogue :: "ee_collection \<Rightarrow> ee_error + image_data" where
  "no_catalogue c = Inr []"

text \<open>A catalogue in which every reduction yields the image \<open>scene\<close>.\<close>

definition summer_catalogue :: "ee_collection \<Rightarrow> ee_error + image_data" where
  "summer_catalogue c = Inr scene"

section \<open>Properties of the handler\<close>

subsection \<open>The \<open>try\<close> block is its list of calls\<close>

text \<open>
  The handler's \<open>try\<close> block makes the calls of \<open>chain\<close> in order and stops at the first
  one that raises. The lemmas below reduce \<open>processing\<close> to \<open>run_calls\<close> on that list.
\<close>

lemma step_call_ret:
  assumes "\<And>s'. k v s' = finish svc h (run_calls svc (calls s') cs) s'"
  shows "bind (call_ret svc c v) k s = finish svc h (run_calls svc (calls s) (c # cs)) s"
  using assms
  by (simp add: bind_def call_ret_def call_def ret_def Let_def finish_def split: option.splits prod.splits)

lemma step_call:
  assumes "\<And>s'. k () s' = finish svc h (run_calls svc (calls s') cs) s'"
  shows "bind (call svc c) k s = finish svc h (run_calls svc (calls s) (c # cs)) s"
  using assms
  by (simp add: bind_def call_def Let_def finish_def split: option.splits prod.splits)

lemma step_last:
  "bind (\<lambda>s. call_ret svc c (tile_url svc (calls s)) s) (\<lambda>u. ret (Json [(''tileUrl'', u)], 200, h)) s
     = finish svc h (run_calls svc (calls s) [c]) s"
  by (simp add: bind_def call_ret_def call_def ret_def Let_def finish_def split: option.splits prod.splits)

lemma pipeline_run:
  "bind (call_ret svc (ee_Geometry_Rectangle region_coords)
             (Geometry_Rectangle region_coords)) (\<lambda>region.
     bind (call_ret svc (ee_ImageCollection ''COPERNICUS/S2_SR_HARMONIZED'')
             (ImageCollection ''COPERNICUS/S2_SR_HARMONIZED'')) (\<lambda>c0.
     bind (call_ret svc (call_filterBounds c0 region) (filterBounds c0 region)) (\<lambda>c1.
     bind (call_ret svc (call_filterDate c1 start end') (filterDate c1 start end')) (\<lambda>c2.
     bind (call_ret svc (ee_Filter_lt ''CLOUDY_PIXEL_PERCENTAGE'' 30)
             (Filter_lt ''CLOUDY_PIXEL_PERCENTAGE'' 30)) (\<lambda>f.
     bind (call_ret svc (call_filter c2 f) (filter_ee c2 f)) (\<lambda>c3.
     bind (call_ret svc (call_map c3 (mask_s2_clouds MapArg)) (map_ee c3 mask_s2_clouds)) (\<lambda>c4.
     bind (call_ret svc (call_median c4) (median c4)) (\<lambda>s2.
     bind (call_ret svc (call_normalizedDifference s2 [''B8'', ''B4''])
             (normalizedDifference s2 [''B8'', ''B4''])) (\<lambda>nd.
     bind (call_ret svc (call_rename nd ''NDVI'') (rename nd ''NDVI'')) (\<lambda>ndvi.
     bind (call svc (call_getMapId ndvi NDVI_VIS)) (\<lambda>_.
     bind (call svc getitem_tile_fetcher) (\<lambda>_.
     bind (\<lambda>s. call_ret svc getattr_url_format (tile_url svc (calls s)) s) (\<lambda>tile_url.
     ret (Json [(''tileUrl'', tile_url)], 200, cors_headers)))))))))))))) s
   = finish svc cors_headers (run_calls svc (calls s) (pipeline_calls start end')) s"
  unfolding pipeline_calls_def S2_def region_def cloud_filter_def filtered_def composite_def
    ndvi_of_def map_ee_def
  by (intro step_call_ret step_call step_last)

lemma processing_run:
  "processing svc h st en =
     bind (ensure_ee svc) (\<lambda>_ s. finish svc h (run_calls svc (calls s) (pipeline_calls st en)) s)"
  unfolding processing_def pipeline_run [symmetric] ..

lemma run_calls_none:
  "fst (run_calls svc hist cs) = None \<Longrightarrow> snd (run_calls svc hist cs) = hist @ cs"
proof (induction cs arbitrary: hist)
  case Nil
  show ?case by simp
next
  case (Cons c cs)
  show ?case
  proof (cases "fails svc hist c")
    case None
    with Cons.prems have "fst (run_calls svc (hist @ [c]) cs) = None" by simp
    from Cons.IH [OF this] None show ?thesis by simp
  next
    case (Some m)
    with Cons.prems show ?thesis by simp
  qed
qed

lemma run_calls_prefix:
  "\<exists>cs'. snd (run_calls svc hist cs) = hist @ cs' \<and> prefix cs' cs"
proof (induction cs arbitrary: hist)
  case Nil
  show ?case by simp
next
  case (Cons c cs)
  show ?case
  proof (cases "fails svc hist c")
    case None
    from Cons [of "hist @ [c]"] obtain cs' where
      a: "snd (run_calls svc (hist @ [c]) cs) = (hist @ [c]) @ cs'" and b: "prefix cs' cs"
      by blast
    have "snd (run_calls svc hist (c # cs)) = hist @ (c # cs')"
      using None a by simp
    moreover have "prefix (c # cs') (c # cs)" using b by simp
    ultimately show ?thesis by blast
  next
    case (Some m)
    have "snd (run_calls svc hist (c # cs)) = hist @ [c]" using Some by simp
    moreover have "prefix [c] (c # cs)" by simp
    ultimately show ?thesis by blast
  qed
qed

lemma run_calls_append:
  "run_calls svc hist (xs @ ys) =
     (case run_calls svc hist xs of
        (Some m, h') \<Rightarrow> (Some m, h')
      | (None, h') \<Rightarrow> run_calls svc h' ys)"
proof (induction xs arbitrary: hist)
  case Nil
  show ?case by simp
next
  case (Cons c cs)
  show ?case
  proof (cases "fails svc hist c")
    case None
    then show ?thesis using Cons [of "hist @ [c]"] by simp
  next
    case (Some m)
    then show ?thesis by simp
  qed
qed

lemma ensure_ee_run:
  "ensure_ee svc s =
     (case run_calls svc (calls s) (init_calls svc s) of
        (Some e, hist) \<Rightarrow> (Inl e, s\<lparr>calls := hist\<rparr>)
      | (None, hist) \<Rightarrow> (Inr (), s\<lparr>ee_initialized := True, calls := hist\<rparr>))"
  by (simp add: ensure_ee_def init_calls_def bind_def call_ret_def call_def ret_def Let_def
        split: option.splits)

lemma processing_chain:
  "\<exists>s'. processing svc h st en s =
          (case fst (run_calls svc (calls s) (chain svc s st en)) of
             Some e \<Rightarrow> Inl e
           | None \<Rightarrow> Inr (Json [(''tileUrl'', tile_url svc
                 (butlast (snd (run_calls svc (calls s) (chain svc s st en)))))], 200, h),
           s')
        \<and> calls s' = snd (run_calls svc (calls s) (chain svc s st en))"
proof -
  obtain r1 h1 where i: "run_calls svc (calls s) (init_calls svc s) = (r1, h1)"
    by (cases "run_calls svc (calls s) (init_calls svc s)")
  show ?thesis
  proof (cases r1)
    case (Some m)
    have e: "ensure_ee svc s = (Inl m, s\<lparr>calls := h1\<rparr>)"
      using i Some by (simp add: ensure_ee_run)
    have c: "run_calls svc (calls s) (chain svc s st en) = (Some m, h1)"
      using i Some by (simp add: chain_def run_calls_append)
    have "processing svc h st en s = (Inl m, s\<lparr>calls := h1\<rparr>)"
      using e by (simp add: processing_run bind_def)
    with c show ?thesis by simp
  next
    case None
    define s1 where "s1 = s\<lparr>ee_initialized := True, calls := h1\<rparr>"
    have e: "ensure_ee svc s = (Inr (), s1)"
      using i None by (simp add: ensure_ee_run s1_def)
    obtain r2 h2 where p: "run_calls svc h1 (pipeline_calls st en) = (r2, h2)"
      by (cases "run_calls svc h1 (pipeline_calls st en)")
    have c: "run_calls svc (calls s) (chain svc s st en) = (r2, h2)"
      using i None p by (simp add: chain_def run_calls_append)
    have "processing svc h st en s = finish svc h (r2, h2) s1"
      using e p by (simp add: processing_run bind_def s1_def)
    with c show ?thesis by (cases r2) (simp_all add: finish_def)
  qed
qed

lemma get_tiles_valid:
  assumes "method r \<noteq> ''OPTIONS''" "args_get r ''start'' = Some st" "st \<noteq> []"
    "args_get r ''end'' = Some en" "en \<noteq> []"
  shows "get_tiles svc r s =
     (case processing svc cors st en s of
        (Inl e, s') \<Rightarrow>
          if is_Exception e then (Inr (Json [(''error'', str e)], 500, cors), s') else (Inl e, s')
      | (Inr v, s') \<Rightarrow> (Inr v, s'))"
  using assms unfolding cors_def
  by (simp add: get_tiles_def try_except_def ret_def Let_def)

lemma get_tiles_run:
  assumes "method r \<noteq> ''OPTIONS''" "args_get r ''start'' = Some st" "st \<noteq> []"
    "args_get r ''end'' = Some en" "en \<noteq> []"
  shows "\<exists>s'. calls s' = snd (run_calls svc (calls s) (chain svc s st en))
          \<and> get_tiles svc r s = (reply svc (run_calls svc (calls s) (chain svc s st en)), s')"
proof -
  obtain x hist where rc: "run_calls svc (calls s) (chain svc s st en) = (x, hist)"
    by (cases "run_calls svc (calls s) (chain svc s st en)")
  from processing_chain [of svc cors st en s] obtain s' where
    p0: "processing svc cors st en s =
          (case fst (run_calls svc (calls s) (chain svc s st en)) of
             Some e \<Rightarrow> Inl e
           | None \<Rightarrow> Inr (Json [(''tileUrl'', tile_url svc
                 (butlast (snd (run_calls svc (calls s) (chain svc s st en)))))], 200, cors),
           s')"
    and c0: "calls s' = snd (run_calls svc (calls s) (chain svc s st en))"
    by blast
  have p: "processing svc cors st en s =
          (case x of
             Some e \<Rightarrow> Inl e
           | None \<Rightarrow> Inr (Json [(''tileUrl'', tile_url svc (butlast hist))], 200, cors),
           s')"
    using p0 rc by (cases x) simp_all
  have c: "calls s' = hist" using c0 by (simp add: rc)
  have "get_tiles svc r s = (reply svc (x, hist), s')"
    unfolding get_tiles_valid [OF assms] p
    by (cases x) (simp_all add: reply_def)
  with c rc show ?thesis by auto
qed

lemma run_calls_raised:
  "fst (run_calls svc hist cs) = Some e \<Longrightarrow> \<exists>h c. fails svc h c = Some e"
proof (induction cs arbitrary: hist)
  case Nil
  then show ?case by simp
next
  case (Cons c cs)
  show ?case
  proof (cases "fails svc hist c")
    case None
    with Cons.prems have "fst (run_calls svc (hist @ [c]) cs) = Some e" by simp
    then show ?thesis by (rule Cons.IH)
  next
    case (Some x)
    with Cons.prems have "x = e" by simp
    with Some show ?thesis by blast
  qed
qed

lemma stages_of_chain: "filter is_stage (chain svc s st en) = stage_calls st en"
  by (simp add: chain_def init_calls_def pipeline_calls_def stage_calls_def)

lemma run_calls_healthy: "run_calls healthy hist cs = (None, hist @ cs)"
  by (induction cs arbitrary: hist) (simp_all add: healthy_def)

lemma healthy_summer:
  "get_tiles healthy summer_request cold =
     (Inr (Json [(''tileUrl'', ''https://earthengine.googleapis.com/v1/maps/m/tiles/{z}/{x}/{y}'')],
           200, [(''Access-Control-Allow-Origin'', ''*'')]),
      \<lparr> ee_initialized = True,
        calls = chain healthy cold ''2024-06-01'' ''2024-08-31'' \<rparr>)"
proof -
  have a: "method summer_request \<noteq> ''OPTIONS''" by (simp add: summer_request_def)
  have b: "args_get summer_request ''start'' = Some ''2024-06-01''"
    by (simp add: summer_request_def args_get_def)
  have c: "args_get summer_request ''end'' = Some ''2024-08-31''"
    by (simp add: summer_request_def args_get_def)
  have t: "tile_url healthy x = ''https://earthengine.googleapis.com/v1/maps/m/tiles/{z}/{x}/{y}''" for x
    by (simp add: healthy_def)
  show ?thesis
    unfolding get_tiles_valid [OF a b _ c, simplified]
    by (simp add: processing_run bind_def ensure_ee_run finish_def run_calls_healthy t cold_def
        chain_def cors_def)
qed

subsection \<open>Requests that never reach the service\<close>

text \<open>
  C1. A request whose method is not OPTIONS and that lacks \<open>start\<close> or lacks \<open>end\<close> is
  answered with status 400 and the body \<open>{"error": "Missing start/end parameters"}\<close>. The
  process is returned as it was received: no library call was logged, so neither the
  session initialiser nor any imagery operation ran, and the flag is untouched.
\<close>

theorem missing_parameter_rejected_before_any_call:
  assumes "method request \<noteq> ''OPTIONS''"
    and "args_get request ''start'' = None \<or> args_get request ''end'' = None"
  shows "get_tiles svc request s = (Inr missing_response, s)"
  using assms by (auto simp: get_tiles_def ret_def missing_response_def Let_def)

theorem missing_parameter_witness:
  "method no_end_request \<noteq> ''OPTIONS''
   \<and> (args_get no_end_request ''start'' = None \<or> args_get no_end_request ''end'' = None)
   \<and> get_tiles healthy no_end_request cold = (Inr missing_response, cold)"
  using missing_parameter_rejected_before_any_call [of no_end_request healthy cold]
  by (simp add: no_end_request_def args_get_def)

text \<open>
  C3. A request whose method is OPTIONS is answered with status 204, the empty body and
  the four preflight headers, whatever its query string holds; the process is returned as
  it was received, so no validation and no processing took place.
\<close>

theorem preflight_reply:
  assumes "method request = ''OPTIONS''"
  shows "get_tiles svc request s =
           (Inr (Text [], 204,
              [(''Access-Control-Allow-Origin'', ''*''),
               (''Access-Control-Allow-Methods'', ''GET''),
               (''Access-Control-Allow-Headers'', ''Content-Type''),
               (''Access-Control-Max-Age'', ''3600'')]), s)"
  using assms by (simp add: get_tiles_def ret_def preflight_headers_def)

theorem preflight_reply_witness:
  "method preflight_request = ''OPTIONS''
   \<and> args_get preflight_request ''start'' = None
   \<and> get_tiles healthy preflight_request cold =
           (Inr (Text [], 204,
              [(''Access-Control-Allow-Origin'', ''*''),
               (''Access-Control-Allow-Methods'', ''GET''),
               (''Access-Control-Allow-Headers'', ''Content-Type''),
               (''Access-Control-Max-Age'', ''3600'')]), cold)"
  using preflight_reply [of preflight_request healthy cold]
  by (simp add: preflight_request_def args_get_def)

text \<open>
  C9. A \<open>start\<close> or \<open>end\<close> that is present but is the empty string is treated as missing:
  the same 400 reply, and again no call is made.
\<close>

theorem empty_parameter_is_missing:
  assumes "method request \<noteq> ''OPTIONS''"
    and "args_get request ''start'' = Some [] \<or> args_get request ''end'' = Some []"
  shows "get_tiles svc request s = (Inr missing_response, s)"
  using assms by (auto simp: get_tiles_def ret_def missing_response_def Let_def)

theorem empty_parameter_witness:
  "method empty_start_request \<noteq> ''OPTIONS''
   \<and> (args_get empty_start_request ''start'' = Some []
        \<or> args_get empty_start_request ''end'' = Some [])
   \<and> get_tiles healthy empty_start_request cold = (Inr missing_response, cold)"
  using empty_parameter_is_missing [of empty_start_request healthy cold]
  by (simp add: empty_start_request_def args_get_def)

subsection \<open>Requests that reach the service\<close>

text \<open>
  C2, as the code has it. For a request that is not OPTIONS and has non-empty \<open>start\<close> and
  \<open>end\<close>, the calls the handler makes are those of \<open>chain\<close> (credential resolution and
  session initialisation when the flag is unset, the region, the collection, its three
  filters, the map of the cloud mask, the median, the normalised difference, the renaming,
  the map-id fetch and the two reads of the URL), up to the first one that raises.
  Whichever call that is, if it raises an instance of \<open>Exception\<close> with message \<open>m\<close> the
  handler returns status 500 with body \<open>{"error": m}\<close>, the message unchanged; and no
  instance of \<open>Exception\<close> ever leaves the handler.
\<close>

theorem exception_becomes_500:
  assumes "method request \<noteq> ''OPTIONS''"
    and "args_get request ''start'' = Some start" and "start \<noteq> []"
    and "args_get request ''end'' = Some end'" and "end' \<noteq> []"
  shows "\<exists>r s'. get_tiles svc request s = (r, s')
           \<and> calls s' = snd (run_calls svc (calls s) (chain svc s start end'))
           \<and> (\<forall>m. fst (run_calls svc (calls s) (chain svc s start end')) = Some (Exception m)
                 \<longrightarrow> r = Inr (Json [(''error'', m)], 500, [(''Access-Control-Allow-Origin'', ''*'')]))
           \<and> (\<forall>e. r = Inl e \<longrightarrow> \<not> is_Exception e)"
proof -
  let ?run = "run_calls svc (calls s) (chain svc s start end')"
  from get_tiles_run [OF assms, of svc s] obtain s' where
    c: "calls s' = snd ?run" and g: "get_tiles svc request s = (reply svc ?run, s')"
    by blast
  obtain x hist where rc: "?run = (x, hist)" by (cases ?run)
  have m: "reply svc ?run = Inr (Json [(''error'', m)], 500, [(''Access-Control-Allow-Origin'', ''*'')])"
    if "fst ?run = Some (Exception m)" for m
    using that rc by (simp add: reply_def cors_def)
  have n: "\<not> is_Exception e" if "reply svc ?run = Inl e" for e
    using that rc by (cases x) (simp_all add: reply_def split: if_splits)
  show ?thesis
  proof (intro exI [of _ "reply svc ?run"] exI [of _ s'] conjI allI impI)
    show "get_tiles svc request s = (reply svc ?run, s')" by (rule g)
    show "calls s' = snd ?run" by (rule c)
  next
    fix m assume "fst ?run = Some (Exception m)"
    then show "reply svc ?run = Inr (Json [(''error'', m)], 500, [(''Access-Control-Allow-Origin'', ''*'')])"
      by (rule m)
  next
    fix e assume "reply svc ?run = Inl e"
    then show "\<not> is_Exception e" by (rule n)
  qed
qed

theorem exception_becomes_500_witness:
  "method summer_request \<noteq> ''OPTIONS''
   \<and> args_get summer_request ''start'' = Some ''2024-06-01'' \<and> ''2024-06-01'' \<noteq> []
   \<and> args_get summer_request ''end'' = Some ''2024-08-31'' \<and> ''2024-08-31'' \<noteq> []
   \<and> fst (run_calls quota_service (calls cold) (chain quota_service cold ''2024-06-01'' ''2024-08-31''))
        = Some (Exception ''Quota exceeded'')
   \<and> (\<exists>s'. get_tiles quota_service summer_request cold =
         (Inr (Json [(''error'', ''Quota exceeded'')], 500, [(''Access-Control-Allow-Origin'', ''*'')]), s'))"
proof -
  have a: "method summer_request \<noteq> ''OPTIONS''" by (simp add: summer_request_def)
  have b: "args_get summer_request ''start'' = Some ''2024-06-01''"
    by (simp add: summer_request_def args_get_def)
  have c: "args_get summer_request ''end'' = Some ''2024-08-31''"
    by (simp add: summer_request_def args_get_def)
  have d: "fst (run_calls quota_service (calls cold) (chain quota_service cold ''2024-06-01'' ''2024-08-31''))
        = Some (Exception ''Quota exceeded'')"
    by (simp add: chain_def init_calls_def pipeline_calls_def quota_service_def cold_def)
  from exception_becomes_500 [OF a b _ c, of quota_service cold] d
  have "\<exists>s'. get_tiles quota_service summer_request cold =
         (Inr (Json [(''error'', ''Quota exceeded'')], 500, [(''Access-Control-Allow-Origin'', ''*'')]), s')"
    by auto
  with a b c d show ?thesis by simp
qed

text \<open>
  C2 as it is written says any exception. The clause at line 99 is \<open>except Exception\<close>:
  when the median reduction raises an object that derives from \<open>BaseException\<close> only, the
  handler returns no response and that object leaves it.
\<close>

theorem exception_escapes_handler:
  "fst (run_calls interrupted_service (calls cold)
          (chain interrupted_service cold ''2024-06-01'' ''2024-08-31'')) = Some (BaseException [])
   \<and> fst (get_tiles interrupted_service summer_request cold) = Inl (BaseException [])"
proof -
  have a: "method summer_request \<noteq> ''OPTIONS''" by (simp add: summer_request_def)
  have b: "args_get summer_request ''start'' = Some ''2024-06-01''"
    by (simp add: summer_request_def args_get_def)
  have c: "args_get summer_request ''end'' = Some ''2024-08-31''"
    by (simp add: summer_request_def args_get_def)
  have d: "fst (run_calls interrupted_service (calls cold)
          (chain interrupted_service cold ''2024-06-01'' ''2024-08-31'')) = Some (BaseException [])"
    by (simp add: chain_def init_calls_def pipeline_calls_def interrupted_service_def cold_def)
  obtain x hist where rc: "run_calls interrupted_service (calls cold)
          (chain interrupted_service cold ''2024-06-01'' ''2024-08-31'') = (x, hist)"
    by (cases "run_calls interrupted_service (calls cold)
          (chain interrupted_service cold ''2024-06-01'' ''2024-08-31'')")
  with d have x: "x = Some (BaseException [])" by simp
  from get_tiles_run [OF a b _ c, of interrupted_service cold] rc x
  have "fst (get_tiles interrupted_service summer_request cold) = Inl (BaseException [])"
    by (auto simp: reply_def)
  with d show ?thesis by simp
qed

text \<open>
  C4. For a valid request the collection stages the handler calls are, in this order and
  each on the result of the one before: \<open>filterBounds\<close> with the fixed rectangle on the
  collection \<open>COPERNICUS/S2_SR_HARMONIZED\<close>, \<open>filterDate(start, end)\<close>, the filter
  \<open>lt(CLOUDY_PIXEL_PERCENTAGE, 30)\<close>, the map of \<open>mask_s2_clouds\<close>, and \<open>median\<close>. The stage
  calls of any run are an initial part of this list (a run stops at the first call that
  raises), and all five when the response is 200.
\<close>

theorem stages_in_order:
  assumes "method request \<noteq> ''OPTIONS''"
    and "args_get request ''start'' = Some start" and "start \<noteq> []"
    and "args_get request ''end'' = Some end'" and "end' \<noteq> []"
  shows "\<exists>r s' cs. get_tiles svc request s = (r, s')
           \<and> calls s' = calls s @ cs
           \<and> prefix (filter is_stage cs) (stage_calls start end')
           \<and> (\<forall>resp. r = Inr resp \<and> fst (snd resp) = 200
                 \<longrightarrow> filter is_stage cs = stage_calls start end')"
proof -
  let ?run = "run_calls svc (calls s) (chain svc s start end')"
  from get_tiles_run [OF assms, of svc s] obtain s' where
    c: "calls s' = snd ?run" and g: "get_tiles svc request s = (reply svc ?run, s')"
    by blast
  from run_calls_prefix [of svc "calls s" "chain svc s start end'"] obtain cs where
    l: "snd ?run = calls s @ cs" and p: "prefix cs (chain svc s start end')"
    by blast
  have p': "prefix (filter is_stage cs) (stage_calls start end')"
    using filter_mono_prefix [OF p, of is_stage] by (simp add: stages_of_chain)
  obtain x hist where rc: "?run = (x, hist)" by (cases ?run)
  have full: "filter is_stage cs = stage_calls start end'"
    if "reply svc ?run = Inr resp \<and> fst (snd resp) = 200" for resp
  proof -
    have "x = None"
    proof (cases x)
      case None
      then show ?thesis .
    next
      case (Some e)
      with that rc show ?thesis by (auto simp: reply_def split: if_splits)
    qed
    with rc have "fst ?run = None" by simp
    from run_calls_none [OF this] l have "cs = chain svc s start end'" by simp
    then show ?thesis by (simp add: stages_of_chain)
  qed
  show ?thesis
  proof (intro exI [of _ "reply svc ?run"] exI [of _ s'] exI [of _ cs] conjI allI impI)
    show "get_tiles svc request s = (reply svc ?run, s')" by (rule g)
    show "calls s' = calls s @ cs" using c l by simp
    show "prefix (filter is_stage cs) (stage_calls start end')" by (rule p')
  next
    fix resp assume "reply svc ?run = Inr resp \<and> fst (snd resp) = 200"
    then show "filter is_stage cs = stage_calls start end'" by (rule full)
  qed
qed

theorem stages_in_order_witness:
  "method summer_request \<noteq> ''OPTIONS''
   \<and> args_get summer_request ''start'' = Some ''2024-06-01'' \<and> ''2024-06-01'' \<noteq> []
   \<and> args_get summer_request ''end'' = Some ''2024-08-31'' \<and> ''2024-08-31'' \<noteq> []
   \<and> (\<exists>resp s' cs. get_tiles healthy summer_request cold = (Inr resp, s')
         \<and> fst (snd resp) = 200
         \<and> calls s' = calls cold @ cs
         \<and> filter is_stage cs = stage_calls ''2024-06-01'' ''2024-08-31'')"
proof -
  have a: "method summer_request \<noteq> ''OPTIONS''" by (simp add: summer_request_def)
  have b: "args_get summer_request ''start'' = Some ''2024-06-01''"
    by (simp add: summer_request_def args_get_def)
  have c: "args_get summer_request ''end'' = Some ''2024-08-31''"
    by (simp add: summer_request_def args_get_def)
  from stages_in_order [OF a b _ c, of healthy cold] obtain r s' cs where
    g: "get_tiles healthy summer_request cold = (r, s')" and
    l: "calls s' = calls cold @ cs" and
    f: "\<forall>resp. r = Inr resp \<and> fst (snd resp) = 200
          \<longrightarrow> filter is_stage cs = stage_calls ''2024-06-01'' ''2024-08-31''"
    by auto
  from g obtain resp where r: "r = Inr resp" "fst (snd resp) = 200"
    by (auto simp: healthy_summer)
  with f have "filter is_stage cs = stage_calls ''2024-06-01'' ''2024-08-31''" by blast
  with g l r a b c show ?thesis by auto
qed

text \<open>
  C8. Every response to a request that is not OPTIONS carries the single header
  \<open>Access-Control-Allow-Origin: *\<close>; its status is 200 with a body \<open>{"tileUrl": u}\<close>, or 400
  or 500 with a body \<open>{"error": m}\<close>. The handler returns such a response unless a call
  raised an object that is no instance of \<open>Exception\<close>, which then leaves the handler.
\<close>

theorem response_shape:
  assumes "method request \<noteq> ''OPTIONS''"
  shows "\<exists>r s'. get_tiles svc request s = (r, s')
           \<and> (\<forall>resp. r = Inr resp \<longrightarrow>
                 (\<exists>body status. resp = (body, status, [(''Access-Control-Allow-Origin'', ''*'')])
                    \<and> ((status = 200 \<and> (\<exists>u. body = Json [(''tileUrl'', u)]))
                         \<or> ((status = 400 \<or> status = 500) \<and> (\<exists>m. body = Json [(''error'', m)])))))
           \<and> (\<forall>e. r = Inl e \<longrightarrow> \<not> is_Exception e \<and> (\<exists>h c. fails svc h c = Some e))"
proof (cases "py_not (args_get request ''start'') \<or> py_not (args_get request ''end'')")
  case True
  with assms have "get_tiles svc request s = (Inr missing_response, s)"
    by (simp add: get_tiles_def ret_def missing_response_def Let_def)
  then show ?thesis by (simp add: missing_response_def)
next
  case False
  then obtain st en where v: "args_get request ''start'' = Some st" "st \<noteq> []"
      "args_get request ''end'' = Some en" "en \<noteq> []"
    by (cases "args_get request ''start''"; cases "args_get request ''end''") auto
  let ?run = "run_calls svc (calls s) (chain svc s st en)"
  from get_tiles_run [OF assms v, of svc s] obtain s' where
    g: "get_tiles svc request s = (reply svc ?run, s')"
    by blast
  obtain x hist where rc: "?run = (x, hist)" by (cases ?run)
  show ?thesis
  proof (cases x)
    case None
    with g rc show ?thesis by (simp add: reply_def cors_def)
  next
    case (Some e)
    with rc have "fst ?run = Some e" by simp
    from run_calls_raised [OF this] have f: "\<exists>h c. fails svc h c = Some e" .
    show ?thesis
    proof (cases "is_Exception e")
      case True
      with g rc Some show ?thesis by (simp add: reply_def cors_def)
    next
      case False
      with g rc Some f show ?thesis by (simp add: reply_def)
    qed
  qed
qed

theorem response_shape_witness:
  "method summer_request \<noteq> ''OPTIONS''
   \<and> (\<exists>body status s'.
         get_tiles quota_service summer_request cold =
           (Inr (body, status, [(''Access-Control-Allow-Origin'', ''*'')]), s')
         \<and> ((status = 200 \<and> (\<exists>u. body = Json [(''tileUrl'', u)]))
              \<or> ((status = 400 \<or> status = 500) \<and> (\<exists>m. body = Json [(''error'', m)]))))"
proof -
  have a: "method summer_request \<noteq> ''OPTIONS''" by (simp add: summer_request_def)
  have q: "is_Exception e" if "fails quota_service h c = Some e" for h c e
    using that by (cases c) (auto simp: quota_service_def)
  from response_shape [OF a, of quota_service cold] obtain r s' where
    g: "get_tiles quota_service summer_request cold = (r, s')" and
    sh: "\<forall>resp. r = Inr resp \<longrightarrow>
           (\<exists>body status. resp = (body, status, [(''Access-Control-Allow-Origin'', ''*'')])
              \<and> ((status = 200 \<and> (\<exists>u. body = Json [(''tileUrl'', u)]))
                   \<or> ((status = 400 \<or> status = 500) \<and> (\<exists>m. body = Json [(''error'', m)]))))" and
    es: "\<forall>e. r = Inl e \<longrightarrow> \<not> is_Exception e \<and> (\<exists>h c. fails quota_service h c = Some e)"
    by blast
  have "\<exists>resp. r = Inr resp"
  proof (cases r)
    case (Inl e)
    with es q show ?thesis by blast
  next
    case (Inr resp)
    then show ?thesis by blast
  qed
  then obtain resp where r: "r = Inr resp" by blast
  with sh obtain body status where
    "resp = (body, status, [(''Access-Control-Allow-Origin'', ''*'')])"
    "(status = 200 \<and> (\<exists>u. body = Json [(''tileUrl'', u)]))
       \<or> ((status = 400 \<or> status = 500) \<and> (\<exists>m. body = Json [(''error'', m)]))"
    by blast
  with g r a show ?thesis by blast
qed

section \<open>Properties of the session initialiser\<close>

lemma setups_append:
  "setups svc hist (xs @ ys) = setups svc hist xs + setups svc (hist @ xs) ys"
  by (induction xs arbitrary: hist) simp_all

lemma ensure_ee_initialized: "ee_initialized s \<Longrightarrow> ensure_ee svc s = (Inr (), s)"
  by (simp add: ensure_ee_def)

lemma ensure_ee_returns: "fst (ensure_ee svc s) = Inr () \<Longrightarrow> ee_initialized (snd (ensure_ee svc s))"
  by (simp add: ensure_ee_run split: prod.splits option.splits)

lemma ensure_ee_raises:
  "fst (ensure_ee svc s) = Inl e \<Longrightarrow>
     \<not> ee_initialized s \<and> \<not> ee_initialized (snd (ensure_ee svc s))"
  by (cases "ee_initialized s")
     (auto simp add: ensure_ee_def bind_def call_ret_def call_def ret_def Let_def
        split: option.splits)

lemma ensure_ee_step:
  "\<exists>cs. calls (snd (ensure_ee svc s)) = calls s @ cs \<and> setups svc (calls s) cs \<le> 1
      \<and> (setups svc (calls s) cs = 1 \<longrightarrow> ee_initialized (snd (ensure_ee svc s)))
      \<and> (ee_initialized s \<longrightarrow> cs = [])"
proof (cases "ee_initialized s")
  case True
  then show ?thesis by (simp add: ensure_ee_def)
next
  case False
  let ?a = "google_auth_default scopes"
  let ?i = "ee_Initialize (resolved svc (calls s)) PROJECT"
  show ?thesis
  proof (cases "fails svc (calls s) ?a")
    case (Some m)
    with False have "calls (snd (ensure_ee svc s)) = calls s @ [?a]"
      by (simp add: ensure_ee_def bind_def call_ret_def call_def ret_def Let_def)
    moreover have "setups svc (calls s) [?a] = 0" by simp
    ultimately show ?thesis using False by (intro exI [of _ "[?a]"]) simp
  next
    case None
    show ?thesis
    proof (cases "fails svc (calls s @ [?a]) ?i")
      case (Some m)
      with None False have "calls (snd (ensure_ee svc s)) = calls s @ [?a, ?i]"
        by (simp add: ensure_ee_def bind_def call_ret_def call_def ret_def Let_def)
      moreover have "setups svc (calls s) [?a, ?i] = 0" using Some by simp
      ultimately show ?thesis using False by (intro exI [of _ "[?a, ?i]"]) simp
    next
      case n2: None
      with None False have "calls (snd (ensure_ee svc s)) = calls s @ [?a, ?i]"
        and "ee_initialized (snd (ensure_ee svc s))"
        by (simp_all add: ensure_ee_def bind_def call_ret_def call_def ret_def Let_def)
      moreover have "setups svc (calls s) [?a, ?i] = 1" using n2 by simp
      ultimately show ?thesis using False by (intro exI [of _ "[?a, ?i]"]) simp
    qed
  qed
qed

lemma ensure_ee_times_initialized: "ee_initialized s \<Longrightarrow> ensure_ee_times svc n s = s"
  by (induction n) (simp_all add: ensure_ee_initialized)

lemma ensure_ee_times_add:
  "ensure_ee_times svc (i + k) s = ensure_ee_times svc k (ensure_ee_times svc i s)"
  by (induction i arbitrary: s) simp_all

lemma ensure_ee_times_Suc:
  "ensure_ee_times svc (Suc i) s = snd (ensure_ee svc (ensure_ee_times svc i s))"
  using ensure_ee_times_add [of svc i "Suc 0" s] by simp

lemma ensure_ee_times_setups:
  "\<exists>cs. calls (ensure_ee_times svc n s) = calls s @ cs \<and> setups svc (calls s) cs \<le> 1"
proof (induction n arbitrary: s)
  case 0
  show ?case by simp
next
  case (Suc n)
  let ?s1 = "snd (ensure_ee svc s)"
  from ensure_ee_step [of svc s] obtain c1 where
    a: "calls ?s1 = calls s @ c1" and b: "setups svc (calls s) c1 \<le> 1" and
    c: "setups svc (calls s) c1 = 1 \<longrightarrow> ee_initialized ?s1"
    by blast
  show ?case
  proof (cases "setups svc (calls s) c1 = 1")
    case True
    with c have "ensure_ee_times svc n ?s1 = ?s1" by (simp add: ensure_ee_times_initialized)
    with a b show ?thesis by (intro exI [of _ c1]) simp
  next
    case False
    with b have z: "setups svc (calls s) c1 = 0" by simp
    from Suc [of ?s1] obtain c2 where
      d: "calls (ensure_ee_times svc n ?s1) = calls ?s1 @ c2" and
      e: "setups svc (calls ?s1) c2 \<le> 1" by blast
    show ?thesis using a d e z by (intro exI [of _ "c1 @ c2"]) (simp add: setups_append)
  qed
qed

lemma later_calls_return:
  assumes "fst (ensure_ee svc (ensure_ee_times svc i s)) = Inr ()" and "i < j"
  shows "ensure_ee_times svc j s = ensure_ee_times svc (Suc i) s"
    and "ee_initialized (ensure_ee_times svc j s)"
proof -
  have f: "ee_initialized (ensure_ee_times svc (Suc i) s)"
    using ensure_ee_returns [OF assms(1)] by (simp only: ensure_ee_times_Suc)
  from assms(2) obtain k where "j = Suc i + k" by (metis less_iff_Suc_add add_Suc)
  then show "ensure_ee_times svc j s = ensure_ee_times svc (Suc i) s"
    using ensure_ee_times_add [of svc "Suc i" k s] f
    by (simp add: ensure_ee_times_initialized del: ensure_ee_times.simps)
  with f show "ee_initialized (ensure_ee_times svc j s)" by simp
qed

lemma resolutions_append:
  "resolutions svc hist (xs @ ys) = resolutions svc hist xs + resolutions svc (hist @ xs) ys"
  by (induction xs arbitrary: hist) simp_all

lemma ensure_ee_resolves_once:
  "\<exists>cs. calls (snd (ensure_ee svc s)) = calls s @ cs \<and> resolutions svc (calls s) cs \<le> 1"
proof (cases "ee_initialized s")
  case True
  then show ?thesis by (simp add: ensure_ee_def)
next
  case False
  let ?a = "google_auth_default scopes"
  let ?i = "ee_Initialize (resolved svc (calls s)) PROJECT"
  show ?thesis
  proof (cases "fails svc (calls s) ?a")
    case (Some e)
    with False have "calls (snd (ensure_ee svc s)) = calls s @ [?a]"
      by (simp add: ensure_ee_def bind_def call_ret_def call_def ret_def Let_def)
    moreover have "resolutions svc (calls s) [?a] \<le> 1" by simp
    ultimately show ?thesis by blast
  next
    case None
    with False have "calls (snd (ensure_ee svc s)) = calls s @ [?a, ?i]"
      by (simp add: ensure_ee_def bind_def call_ret_def call_def ret_def Let_def
          split: option.splits)
    moreover have "resolutions svc (calls s) [?a, ?i] \<le> 1" by simp
    ultimately show ?thesis by blast
  qed
qed

lemma first_success_resolves_once:
  assumes "fst (ensure_ee svc s) = Inr ()"
  shows "\<exists>cs. calls (ensure_ee_times svc n s) = calls s @ cs \<and> resolutions svc (calls s) cs \<le> 1"
proof (cases n)
  case 0
  then show ?thesis by simp
next
  case (Suc k)
  have "ee_initialized (snd (ensure_ee svc s))" using assms by (rule ensure_ee_returns)
  then have "ensure_ee_times svc n s = snd (ensure_ee svc s)"
    using Suc by (simp add: ensure_ee_times_initialized)
  with ensure_ee_resolves_once [of svc s] show ?thesis by simp
qed

text \<open>
  C7, as the code has it. The flag is set only when \<open>ee.Initialize\<close> has returned. So in
  any number of calls made one after the other, from any process and against any service,
  the session is set up at most once (at most one \<open>ee.Initialize\<close> returns), and once a
  call has returned normally every later call returns at once: it leaves the process as it
  is and logs no call, so it neither resolves credentials nor initialises the session
  again. When the first call returns normally, credentials are resolved at most once in
  the whole sequence. A call that follows only calls that raised resolves credentials
  again.
\<close>

theorem setup_at_most_once:
  "(\<exists>cs. calls (ensure_ee_times svc n s) = calls s @ cs
         \<and> setups svc (calls s) cs \<le> 1
         \<and> (fst (ensure_ee svc s) = Inr () \<longrightarrow> resolutions svc (calls s) cs \<le> 1))
   \<and> (\<forall>i j. fst (ensure_ee svc (ensure_ee_times svc i s)) = Inr () \<and> i < j \<longrightarrow>
          ensure_ee svc (ensure_ee_times svc j s) = (Inr (), ensure_ee_times svc j s)
          \<and> calls (ensure_ee_times svc j s) = calls (ensure_ee_times svc (Suc i) s))"
proof (intro conjI allI impI)
  from ensure_ee_times_setups [of svc n s] obtain cs where
    a: "calls (ensure_ee_times svc n s) = calls s @ cs" and b: "setups svc (calls s) cs \<le> 1"
    by blast
  have "resolutions svc (calls s) cs \<le> 1" if "fst (ensure_ee svc s) = Inr ()"
    using first_success_resolves_once [OF that, of n] a by auto
  with a b show "\<exists>cs. calls (ensure_ee_times svc n s) = calls s @ cs
         \<and> setups svc (calls s) cs \<le> 1
         \<and> (fst (ensure_ee svc s) = Inr () \<longrightarrow> resolutions svc (calls s) cs \<le> 1)"
    by blast
next
  fix i j
  assume a: "fst (ensure_ee svc (ensure_ee_times svc i s)) = Inr () \<and> i < j"
  then have r: "fst (ensure_ee svc (ensure_ee_times svc i s)) = Inr ()" and l: "i < j"
    by simp_all
  show "ensure_ee svc (ensure_ee_times svc j s) = (Inr (), ensure_ee_times svc j s)"
    using later_calls_return(2) [OF r l] by (rule ensure_ee_initialized)
  show "calls (ensure_ee_times svc j s) = calls (ensure_ee_times svc (Suc i) s)"
    using later_calls_return(1) [OF r l] by (simp only:)
qed

theorem setup_at_most_once_witness:
  "fst (ensure_ee flaky_init (ensure_ee_times flaky_init 0 cold))
     = Inl (Exception ''Earth Engine unavailable'')
   \<and> fst (ensure_ee flaky_init (ensure_ee_times flaky_init (Suc 0) cold)) = Inr ()
   \<and> Suc 0 < Suc (Suc 0)
   \<and> ensure_ee flaky_init (ensure_ee_times flaky_init (Suc (Suc 0)) cold)
        = (Inr (), ensure_ee_times flaky_init (Suc (Suc 0)) cold)
   \<and> calls (ensure_ee_times flaky_init (Suc (Suc 0)) cold) =
        [google_auth_default scopes, ee_Initialize (Credentials 0) PROJECT,
         google_auth_default scopes, ee_Initialize (Credentials 2) PROJECT]
   \<and> setups flaky_init (calls cold) (calls (ensure_ee_times flaky_init (Suc (Suc 0)) cold)) = 1
   \<and> fst (ensure_ee healthy cold) = Inr ()
   \<and> (\<exists>cs. calls (ensure_ee_times healthy (Suc (Suc 0)) cold) = calls cold @ cs
          \<and> resolutions healthy (calls cold) cs \<le> 1)"
proof -
  have a: "ensure_ee flaky_init cold =
      (Inl (Exception ''Earth Engine unavailable''),
       \<lparr> ee_initialized = False,
         calls = [google_auth_default scopes, ee_Initialize (Credentials 0) PROJECT] \<rparr>)"
    by (simp add: ensure_ee_def bind_def call_ret_def call_def ret_def Let_def flaky_init_def cold_def)
  have b: "ensure_ee flaky_init \<lparr> ee_initialized = False,
         calls = [google_auth_default scopes, ee_Initialize (Credentials 0) PROJECT] \<rparr> =
      (Inr (), \<lparr> ee_initialized = True,
         calls = [google_auth_default scopes, ee_Initialize (Credentials 0) PROJECT,
                  google_auth_default scopes, ee_Initialize (Credentials 2) PROJECT] \<rparr>)"
    by (simp add: ensure_ee_def bind_def call_ret_def call_def ret_def Let_def flaky_init_def)
  have c: "fst (ensure_ee flaky_init (ensure_ee_times flaky_init (Suc 0) cold)) = Inr ()"
    by (simp add: a b)
  have d: "calls (ensure_ee_times flaky_init (Suc (Suc 0)) cold) =
        [google_auth_default scopes, ee_Initialize (Credentials 0) PROJECT,
         google_auth_default scopes, ee_Initialize (Credentials 2) PROJECT]"
    by (simp add: a b)
  have e: "setups flaky_init (calls cold) (calls (ensure_ee_times flaky_init (Suc (Suc 0)) cold)) = 1"
    unfolding d by (simp add: flaky_init_def cold_def)
  from setup_at_most_once [of flaky_init "Suc (Suc 0)" cold] c
  have f: "ensure_ee flaky_init (ensure_ee_times flaky_init (Suc (Suc 0)) cold)
        = (Inr (), ensure_ee_times flaky_init (Suc (Suc 0)) cold)"
    by blast
  have h: "fst (ensure_ee healthy cold) = Inr ()"
    by (simp add: ensure_ee_def bind_def call_ret_def call_def ret_def Let_def healthy_def cold_def)
  from setup_at_most_once [of healthy "Suc (Suc 0)" cold] h
  have g: "\<exists>cs. calls (ensure_ee_times healthy (Suc (Suc 0)) cold) = calls cold @ cs
          \<and> resolutions healthy (calls cold) cs \<le> 1"
    by blast
  from a c d e f h g show ?thesis by simp
qed

text \<open>
  C7 as it is written says that credential resolution occurs at most once over any
  sequence of calls. Against a service whose first session initialisation raises, two
  calls of the initialiser resolve credentials twice.
\<close>

theorem credentials_resolved_twice:
  "\<not> resolutions flaky_init (calls cold)
        (calls (ensure_ee_times flaky_init (Suc (Suc 0)) cold)) \<le> 1"
proof -
  have a: "ensure_ee flaky_init cold =
      (Inl (Exception ''Earth Engine unavailable''),
       \<lparr> ee_initialized = False,
         calls = [google_auth_default scopes, ee_Initialize (Credentials 0) PROJECT] \<rparr>)"
    by (simp add: ensure_ee_def bind_def call_ret_def call_def ret_def Let_def flaky_init_def cold_def)
  have b: "ensure_ee flaky_init \<lparr> ee_initialized = False,
         calls = [google_auth_default scopes, ee_Initialize (Credentials 0) PROJECT] \<rparr> =
      (Inr (), \<lparr> ee_initialized = True,
         calls = [google_auth_default scopes, ee_Initialize (Credentials 0) PROJECT,
                  google_auth_default scopes, ee_Initialize (Credentials 2) PROJECT] \<rparr>)"
    by (simp add: ensure_ee_def bind_def call_ret_def call_def ret_def Let_def flaky_init_def)
  have d: "calls (ensure_ee_times flaky_init (Suc (Suc 0)) cold) =
        [google_auth_default scopes, ee_Initialize (Credentials 0) PROJECT,
         google_auth_default scopes, ee_Initialize (Credentials 2) PROJECT]"
    by (simp add: a b)
  have "resolutions flaky_init (calls cold)
          (calls (ensure_ee_times flaky_init (Suc (Suc 0)) cold)) = 2"
    unfolding d by (simp add: flaky_init_def cold_def)
  then show ?thesis by simp
qed

text \<open>
  C10. When the initialiser raises, the flag is unset afterwards, as it was before, so the
  next call does not take the early return: it resolves credentials again and, when that
  succeeds, initialises the session again with what it resolved.
\<close>

theorem failed_initialisation_is_retried:
  assumes "ensure_ee svc s = (Inl e, s')"
  shows "\<not> ee_initialized s' \<and> ee_initialized s' = ee_initialized s
     \<and> calls (snd (ensure_ee svc s')) = calls s' @
         (case fails svc (calls s') (google_auth_default scopes) of
            Some m \<Rightarrow> [google_auth_default scopes]
          | None \<Rightarrow> [google_auth_default scopes, ee_Initialize (resolved svc (calls s')) PROJECT])"
proof -
  from assms have "fst (ensure_ee svc s) = Inl e" and s': "s' = snd (ensure_ee svc s)" by simp_all
  from ensure_ee_raises [OF this(1)] s' have n: "\<not> ee_initialized s" "\<not> ee_initialized s'"
    by simp_all
  from n(2) have "calls (snd (ensure_ee svc s')) = calls s' @
         (case fails svc (calls s') (google_auth_default scopes) of
            Some m \<Rightarrow> [google_auth_default scopes]
          | None \<Rightarrow> [google_auth_default scopes, ee_Initialize (resolved svc (calls s')) PROJECT])"
    by (simp add: ensure_ee_def bind_def call_ret_def call_def ret_def Let_def
        split: option.splits)
  with n show ?thesis by simp
qed

theorem failed_initialisation_witness:
  "ensure_ee flaky_init cold =
      (Inl (Exception ''Earth Engine unavailable''),
       \<lparr> ee_initialized = False,
         calls = [google_auth_default scopes, ee_Initialize (Credentials 0) PROJECT] \<rparr>)
   \<and> calls (snd (ensure_ee flaky_init \<lparr> ee_initialized = False,
         calls = [google_auth_default scopes, ee_Initialize (Credentials 0) PROJECT] \<rparr>)) =
       [google_auth_default scopes, ee_Initialize (Credentials 0) PROJECT,
        google_auth_default scopes, ee_Initialize (Credentials 2) PROJECT]"
proof -
  have a: "ensure_ee flaky_init cold =
      (Inl (Exception ''Earth Engine unavailable''),
       \<lparr> ee_initialized = False,
         calls = [google_auth_default scopes, ee_Initialize (Credentials 0) PROJECT] \<rparr>)"
    by (simp add: ensure_ee_def bind_def call_ret_def call_def ret_def Let_def flaky_init_def cold_def)
  from failed_initialisation_is_retried [OF a] show ?thesis
    using a by (simp add: flaky_init_def)
qed

section \<open>Properties of the images requested\<close>

lemma filter_single:
  "distinct (map fst a) \<Longrightarrow> map_of a n = Some b \<Longrightarrow> filter (\<lambda>(k, _). k = n) a = [(n, b)]"
proof (induction a)
  case Nil
  then show ?case by simp
next
  case (Cons x a)
  obtain k v where x: "x = (k, v)" by (cases x)
  show ?case
  proof (cases "k = n")
    case True
    with Cons.prems x have "n \<notin> fst ` set a" "v = b" by auto
    then have "filter (\<lambda>(k, _). k = n) a = []"
      by (force simp: filter_empty_conv)
    with True x \<open>v = b\<close> show ?thesis by simp
  next
    case False
    with Cons x show ?thesis by simp
  qed
qed

lemma mask_value:
  assumes "distinct (map fst img)" "map_of img ''SCL'' = Some scl"
  shows "ee_eval img red
           (And_ee (And_ee (And_ee (neq (select MapArg ''SCL'') (Image_constant 3))
                                   (neq (select MapArg ''SCL'') (Image_constant 8)))
                           (neq (select MapArg ''SCL'') (Image_constant 9)))
                   (neq (select MapArg ''SCL'') (Image_constant 10)))
         = Inr [(''SCL'', cloud_free scl)]"
proof -
  have s: "selected img ''SCL'' = Inr [(''SCL'', scl)]"
    using filter_single [OF assms] by (simp add: selected_def)
  have "pixelwise and_px (pixelwise and_px (pixelwise and_px
            (pixelwise neq_px scl (\<lambda>p. Some 3)) (pixelwise neq_px scl (\<lambda>p. Some 8)))
            (pixelwise neq_px scl (\<lambda>p. Some 9))) (pixelwise neq_px scl (\<lambda>p. Some 10))
        = cloud_free scl"
    by (rule ext) (simp add: pixelwise_def neq_px_def and_px_def cloud_free_def split: option.splits)
  then show ?thesis
    by (simp add: s matched_def)
qed

lemma mask_s2_clouds_value:
  assumes "distinct (map fst img)" "map_of img ''SCL'' = Some scl"
  shows "ee_eval img red (mask_s2_clouds MapArg)
           = Inr (map (\<lambda>(n, x). (n, pixelwise mask_px x (cloud_free scl))) img)"
proof -
  have "ee_eval img red (mask_s2_clouds MapArg) = masked_by img [(''SCL'', cloud_free scl)]"
    unfolding mask_s2_clouds_def Let_def
    by (simp only: ee_eval.simps(1,6) and_then.simps mask_value [OF assms])
  then show ?thesis by (simp add: masked_by_def)
qed

text \<open>
  C5. On an image with a scene-classification band \<open>SCL\<close>, \<open>mask_s2_clouds\<close> gives an image
  with the same bands in which a pixel whose \<open>SCL\<close> value is 3, 8, 9 or 10 has no data in
  any band, and a pixel with any other \<open>SCL\<close> value is as it was in every band. The
  function is a pure map from descriptions to descriptions: it makes no library call and
  touches no state.
\<close>

theorem cloud_mask_excludes_codes:
  assumes "distinct (map fst img)" and "map_of img ''SCL'' = Some scl"
  shows "\<exists>out. ee_eval img red (mask_s2_clouds MapArg) = Inr out
           \<and> map fst out = map fst img
           \<and> (\<forall>i < length img. \<forall>p v. scl p = Some v \<longrightarrow>
                 snd (out ! i) p = (if v \<in> {3, 8, 9, 10} then None else snd (img ! i) p))"
proof -
  let ?out = "map (\<lambda>(n, x). (n, pixelwise mask_px x (cloud_free scl))) img"
  have n: "map fst ?out = map fst img" by (induction img) auto
  have p: "snd (?out ! i) p = (if v \<in> {3, 8, 9, 10} then None else snd (img ! i) p)"
    if "i < length img" "scl p = Some v" for i p v
  proof -
    obtain k x where e: "img ! i = (k, x)" by (cases "img ! i")
    with that show ?thesis
      by (simp add: pixelwise_def mask_px_def cloud_free_def split: option.splits)
  qed
  from mask_s2_clouds_value [OF assms, of red] n p show ?thesis by blast
qed

theorem cloud_mask_witness:
  "distinct (map fst scene)
   \<and> map_of scene ''SCL'' = Some (snd (scene ! 2))
   \<and> (\<exists>out. ee_eval scene no_catalogue (mask_s2_clouds MapArg) = Inr out
         \<and> map fst out = [''B4'', ''B8'', ''SCL'']
         \<and> snd (out ! 0) (0, 0) = Some 400
         \<and> snd (out ! 0) (0, 1) = None
         \<and> snd (out ! 1) (0, 1) = None)"
proof -
  have d: "distinct (map fst scene)" by (simp add: scene_def)
  have m: "map_of scene ''SCL'' = Some (snd (scene ! 2))" by (simp add: scene_def)
  from cloud_mask_excludes_codes [OF d m, of no_catalogue] obtain out where
    e: "ee_eval scene no_catalogue (mask_s2_clouds MapArg) = Inr out" and
    n: "map fst out = map fst scene" and
    p: "\<forall>i < length scene. \<forall>p v. snd (scene ! 2) p = Some v \<longrightarrow>
           snd (out ! i) p = (if v \<in> {3, 8, 9, 10} then None else snd (scene ! i) p)"
    by blast
  have l: "length scene = 3" by (simp add: scene_def)
  have a: "snd (scene ! 2) (0, 0) = Some 4" "snd (scene ! 2) (0, 1) = Some 9"
    by (simp_all add: scene_def)
  have r1: "snd (out ! 0) (0, 0) = Some 400"
    using p [rule_format, of 0 "(0, 0)" 4] a l by (simp add: scene_def)
  have r2: "snd (out ! 0) (0, 1) = None"
    using p [rule_format, of 0 "(0, 1)" 9] a l by simp
  have r3: "snd (out ! 1) (0, 1) = None"
    using p [rule_format, of 1 "(0, 1)" 9] a l by simp
  have r4: "map fst out = [''B4'', ''B8'', ''SCL'']" using n by (simp add: scene_def)
  show ?thesis
    by (intro conjI exI [of _ out]) (rule d m e r1 r2 r3 r4)+
qed

lemma ndvi_value:
  assumes "ee_eval arg red s2 = Inr img"
    and "map_of img ''B8'' = Some nir" and "map_of img ''B4'' = Some red_band"
  shows "ee_eval arg red (rename (normalizedDifference s2 [''B8'', ''B4'']) ''NDVI'')
           = Inr [(''NDVI'', pixelwise nd_px nir red_band)]"
  using assms by (simp add: difference_of_def renamed_def)

lemma getMapId_in_chain:
  "call_getMapId (rename (normalizedDifference (composite st en) [''B8'', ''B4'']) ''NDVI'') NDVI_VIS
     \<in> set (chain svc s st en)"
  by (simp add: chain_def pipeline_calls_def ndvi_of_def)

text \<open>
  C6. The image for which the handler fetches a map id is the composite's normalised
  difference of the bands \<open>B8\<close> and \<open>B4\<close>, in that order, renamed \<open>NDVI\<close>. Whatever the
  composite holds, as long as it has both bands, that image has the single band \<open>NDVI\<close>,
  whose value at a pixel with near-infrared value \<open>x\<close> and red value \<open>y\<close> is
  \<open>(x - y) / (x + y)\<close>. The arithmetic is exact here; pixels with a negative input or a
  zero sum are left to the service.
\<close>

theorem index_is_normalised_difference:
  assumes "method request \<noteq> ''OPTIONS''"
    and "args_get request ''start'' = Some start" and "start \<noteq> []"
    and "args_get request ''end'' = Some end'" and "end' \<noteq> []"
    and "get_tiles svc request s = (Inr resp, s')" and "fst (snd resp) = 200"
    and "ee_eval arg red (composite start end') = Inr img"
    and "map_of img ''B8'' = Some nir" and "map_of img ''B4'' = Some red_band"
  shows "\<exists>cs b. calls s' = calls s @ cs
           \<and> call_getMapId
                (rename (normalizedDifference (composite start end') [''B8'', ''B4'']) ''NDVI'')
                NDVI_VIS \<in> set cs
           \<and> ee_eval arg red
                (rename (normalizedDifference (composite start end') [''B8'', ''B4'']) ''NDVI'')
               = Inr [(''NDVI'', b)]
           \<and> (\<forall>p x y. nir p = Some x \<and> red_band p = Some y \<and> 0 \<le> x \<and> 0 \<le> y \<and> x + y \<noteq> 0
                  \<longrightarrow> b p = Some ((x - y) / (x + y)))"
proof -
  let ?run = "run_calls svc (calls s) (chain svc s start end')"
  let ?ndvi = "rename (normalizedDifference (composite start end') [''B8'', ''B4'']) ''NDVI''"
  from get_tiles_run [OF assms(1-5), of svc s] obtain t where
    c: "calls t = snd ?run" and g: "get_tiles svc request s = (reply svc ?run, t)"
    by blast
  from g assms(6) have t: "t = s'" and r: "reply svc ?run = Inr resp" by simp_all
  obtain x hist where rc: "?run = (x, hist)" by (cases ?run)
  have "x = None"
  proof (cases x)
    case None
    then show ?thesis .
  next
    case (Some e)
    with r rc assms(7) show ?thesis by (auto simp: reply_def split: if_splits)
  qed
  with rc have n: "fst ?run = None" by simp
  from run_calls_none [OF n] c t have l: "calls s' = calls s @ chain svc s start end'" by simp
  have v: "ee_eval arg red ?ndvi = Inr [(''NDVI'', pixelwise nd_px nir red_band)]"
    by (rule ndvi_value [OF assms(8-10)])
  have f: "pixelwise nd_px nir red_band p = Some ((x - y) / (x + y))"
    if "nir p = Some x \<and> red_band p = Some y \<and> 0 \<le> x \<and> 0 \<le> y \<and> x + y \<noteq> 0" for p x y
    using that by (simp add: pixelwise_def nd_px_def)
  show ?thesis
  proof (intro exI [of _ "chain svc s start end'"] exI [of _ "pixelwise nd_px nir red_band"]
      conjI allI impI)
    show "calls s' = calls s @ chain svc s start end'" by (rule l)
    show "call_getMapId ?ndvi NDVI_VIS \<in> set (chain svc s start end')"
      by (rule getMapId_in_chain)
    show "ee_eval arg red ?ndvi = Inr [(''NDVI'', pixelwise nd_px nir red_band)]" by (rule v)
    fix p x y
    assume "nir p = Some x \<and> red_band p = Some y \<and> 0 \<le> x \<and> 0 \<le> y \<and> x + y \<noteq> 0"
    then show "pixelwise nd_px nir red_band p = Some ((x - y) / (x + y))" by (rule f)
  qed
qed

theorem index_witness:
  "method summer_request \<noteq> ''OPTIONS''
   \<and> args_get summer_request ''start'' = Some ''2024-06-01'' \<and> ''2024-06-01'' \<noteq> []
   \<and> args_get summer_request ''end'' = Some ''2024-08-31'' \<and> ''2024-08-31'' \<noteq> []
   \<and> (\<exists>resp s'. get_tiles healthy summer_request cold = (Inr resp, s') \<and> fst (snd resp) = 200)
   \<and> ee_eval [] summer_catalogue (composite ''2024-06-01'' ''2024-08-31'') = Inr scene
   \<and> map_of scene ''B8'' = Some (snd (scene ! 1))
   \<and> map_of scene ''B4'' = Some (snd (scene ! 0))
   \<and> (\<exists>b. ee_eval [] summer_catalogue
              (rename (normalizedDifference (composite ''2024-06-01'' ''2024-08-31'') [''B8'', ''B4''])
                 ''NDVI'') = Inr [(''NDVI'', b)]
          \<and> b (0, 0) = Some (4 / 5))"
proof -
  have a: "method summer_request \<noteq> ''OPTIONS''" by (simp add: summer_request_def)
  have b: "args_get summer_request ''start'' = Some ''2024-06-01''"
    by (simp add: summer_request_def args_get_def)
  have c: "args_get summer_request ''end'' = Some ''2024-08-31''"
    by (simp add: summer_request_def args_get_def)
  have e: "ee_eval [] summer_catalogue (composite ''2024-06-01'' ''2024-08-31'') = Inr scene"
    by (simp add: composite_def summer_catalogue_def)
  have m8: "map_of scene ''B8'' = Some (snd (scene ! 1))" by (simp add: scene_def)
  have m4: "map_of scene ''B4'' = Some (snd (scene ! 0))" by (simp add: scene_def)
  from index_is_normalised_difference [OF a b _ c _ healthy_summer _ e m8 m4]
  obtain bnd where
    v: "ee_eval [] summer_catalogue
          (rename (normalizedDifference (composite ''2024-06-01'' ''2024-08-31'') [''B8'', ''B4''])
             ''NDVI'') = Inr [(''NDVI'', bnd)]" and
    f: "\<forall>p x y. snd (scene ! 1) p = Some x \<and> snd (scene ! 0) p = Some y \<and> 0 \<le> x \<and> 0 \<le> y
           \<and> x + y \<noteq> 0 \<longrightarrow> bnd p = Some ((x - y) / (x + y))"
    by auto
  have "bnd (0, 0) = Some (4 / 5)"
    using f [rule_format, of "(0, 0)" 3600 400] by (simp add: scene_def)
  with v have "\<exists>b. ee_eval [] summer_catalogue
              (rename (normalizedDifference (composite ''2024-06-01'' ''2024-08-31'') [''B8'', ''B4''])
                 ''NDVI'') = Inr [(''NDVI'', b)] \<and> b (0, 0) = Some (4 / 5)"
    by (intro exI [of _ bnd]) simp
  moreover have "\<exists>resp s'. get_tiles healthy summer_request cold = (Inr resp, s')
      \<and> fst (snd resp) = 200"
    by (simp add: healthy_summer)
  ultimately show ?thesis using a b c e m8 m4 by simp
qed

end
